theory Spec2Isabelle
  imports Complex_Main
begin
section \<open>JavaScript numbers\<close>

text \<open>
  The calculator computes with the JavaScript type \<open>number\<close>, the binary64 format of
  IEEE 754. A finite number is modelled by the real it denotes, and the three special
  values of the type are kept as constructors, so that an overflow or a division by zero
  is a value of the model as it is a value of the program. The two zeros of binary64 are
  one value \<open>Fin 0\<close>, as \<open>===\<close> sees them; a quotient by zero takes the sign of its
  numerator.
\<close>

datatype number = Fin real | PosInf | NegInf | NaN

subsection \<open>Rounding to binary64\<close>

text \<open>
  Every arithmetic operator of the language returns the double nearest to the exact
  result, the one with the even significand on a tie. \<open>expo y\<close> is the binary exponent
  of a magnitude \<open>y\<close>, held at \<open>-1022\<close> below the normal range (gradual underflow) and at
  \<open>1023\<close> above it; it is found by a bounded search upwards from \<open>0\<close> for \<open>1 \<le> y\<close> and
  downwards otherwise. The doubles with exponent \<open>e\<close> are the multiples of
  \<open>2\<^sup>e\<^sup>-\<^sup>5\<^sup>2\<close>; \<open>rnd_abs\<close> rounds a magnitude to the nearest of them with \<open>rhe\<close>
  (round half to even), and \<open>rnd\<close> puts the sign back and returns an infinity when the
  rounded magnitude reaches \<open>2\<^sup>1\<^sup>0\<^sup>2\<^sup>4\<close>. \<open>binary64 x\<close> says that the real \<open>x\<close> is
  itself a double.
\<close>

fun up :: "nat \<Rightarrow> int \<Rightarrow> real \<Rightarrow> int" where
  "up 0 e y = e"
| "up (Suc k) e y = (if 2 powi (e + 1) \<le> y then up k (e + 1) y else e)"

fun down :: "nat \<Rightarrow> int \<Rightarrow> real \<Rightarrow> int" where
  "down 0 e y = e"
| "down (Suc k) e y = (if y < 2 powi e then down k (e - 1) y else e)"

definition expo :: "real \<Rightarrow> int" where
  "expo y = (if 1 \<le> y then up 1023 0 y else down 1022 0 y)"

definition rhe :: "real \<Rightarrow> int" where
  "rhe z = (let f = \<lfloor>z\<rfloor>; d = z - of_int f
            in if d < 1 / 2 then f
               else if 1 / 2 < d then f + 1
               else if even f then f else f + 1)"

definition rnd_abs :: "real \<Rightarrow> real" where
  "rnd_abs y = of_int (rhe (y / 2 powi (expo y - 52))) * 2 powi (expo y - 52)"

definition rnd :: "real \<Rightarrow> number" where
  "rnd x = (if x < 0
            then (if 2 ^ 1024 \<le> rnd_abs (- x) then NegInf else Fin (- rnd_abs (- x)))
            else (if 2 ^ 1024 \<le> rnd_abs x then PosInf else Fin (rnd_abs x)))"

definition binary64 :: "real \<Rightarrow> bool" where
  "binary64 x \<longleftrightarrow> rnd x = Fin x"

subsection \<open>The operators\<close>

text \<open>
  \<open>+\<close>, \<open>-\<close>, \<open>*\<close> and \<open>/\<close> round the exact result of finite operands and follow the
  IEEE 754 rules on the special values; \<open><\<close> and \<open>\<le>\<close> are the comparisons of the
  language, false as soon as one side is \<open>NaN\<close>.
\<close>

instantiation number :: "{plus, minus, times, inverse, ord}"
begin

fun plus_number :: "number \<Rightarrow> number \<Rightarrow> number" where
  "plus_number (Fin a) (Fin b) = rnd (a + b)"
| "plus_number NaN _ = NaN"
| "plus_number _ NaN = NaN"
| "plus_number PosInf NegInf = NaN"
| "plus_number NegInf PosInf = NaN"
| "plus_number PosInf _ = PosInf"
| "plus_number _ PosInf = PosInf"
| "plus_number NegInf _ = NegInf"
| "plus_number _ NegInf = NegInf"

fun minus_number :: "number \<Rightarrow> number \<Rightarrow> number" where
  "minus_number (Fin a) (Fin b) = rnd (a - b)"
| "minus_number NaN _ = NaN"
| "minus_number _ NaN = NaN"
| "minus_number PosInf PosInf = NaN"
| "minus_number NegInf NegInf = NaN"
| "minus_number PosInf _ = PosInf"
| "minus_number _ PosInf = NegInf"
| "minus_number NegInf _ = NegInf"
| "minus_number _ NegInf = PosInf"

fun times_number :: "number \<Rightarrow> number \<Rightarrow> number" where
  "times_number (Fin a) (Fin b) = rnd (a * b)"
| "times_number NaN _ = NaN"
| "times_number _ NaN = NaN"
| "times_number (Fin a) PosInf = (if a = 0 then NaN else if 0 < a then PosInf else NegInf)"
| "times_number (Fin a) NegInf = (if a = 0 then NaN else if 0 < a then NegInf else PosInf)"
| "times_number PosInf (Fin b) = (if b = 0 then NaN else if 0 < b then PosInf else NegInf)"
| "times_number NegInf (Fin b) = (if b = 0 then NaN else if 0 < b then NegInf else PosInf)"
| "times_number PosInf PosInf = PosInf"
| "times_number PosInf NegInf = NegInf"
| "times_number NegInf PosInf = NegInf"
| "times_number NegInf NegInf = PosInf"

fun divide_number :: "number \<Rightarrow> number \<Rightarrow> number" where
  "divide_number (Fin a) (Fin b) =
     (if b = 0 then (if a = 0 then NaN else if 0 < a then PosInf else NegInf)
      else rnd (a / b))"
| "divide_number NaN _ = NaN"
| "divide_number _ NaN = NaN"
| "divide_number (Fin a) PosInf = Fin 0"
| "divide_number (Fin a) NegInf = Fin 0"
| "divide_number PosInf (Fin b) = (if 0 \<le> b then PosInf else NegInf)"
| "divide_number NegInf (Fin b) = (if 0 \<le> b then NegInf else PosInf)"
| "divide_number PosInf PosInf = NaN"
| "divide_number PosInf NegInf = NaN"
| "divide_number NegInf PosInf = NaN"
| "divide_number NegInf NegInf = NaN"

definition inverse_number :: "number \<Rightarrow> number" where
  "inverse_number x = divide (Fin 1) x"

fun less_number :: "number \<Rightarrow> number \<Rightarrow> bool" where
  "less_number (Fin a) (Fin b) = (a < b)"
| "less_number NaN _ = False"
| "less_number _ NaN = False"
| "less_number _ NegInf = False"
| "less_number PosInf _ = False"
| "less_number NegInf _ = True"
| "less_number _ PosInf = True"

fun less_eq_number :: "number \<Rightarrow> number \<Rightarrow> bool" where
  "less_eq_number (Fin a) (Fin b) = (a \<le> b)"
| "less_eq_number NaN _ = False"
| "less_eq_number _ NaN = False"
| "less_eq_number NegInf _ = True"
| "less_eq_number _ PosInf = True"
| "less_eq_number _ NegInf = False"
| "less_eq_number PosInf _ = False"

instance ..

end

text \<open>\<open>isFinite\<close>: neither \<open>NaN\<close> nor an infinity.\<close>

fun isFinite :: "number \<Rightarrow> bool" where
  "isFinite (Fin _) = True"
| "isFinite _ = False"

subsection \<open>\<open>toFixed\<close>\<close>

text \<open>
  \<open>Number.prototype.toFixed\<close> as ECMA-262 defines it. It throws a \<open>RangeError\<close> when
  the number of fraction digits is not between 0 and 100, the only exception that an
  expression of \<open>calculateMetrics\<close> can throw; a throw is the left summand of the result.
  Otherwise a non-finite number prints as its name; the sign is split off, and below
  \<open>10\<^sup>2\<^sup>1\<close> the text is made of the digits of the integer \<open>n\<close> nearest to the magnitude
  times \<open>10\<^sup>f\<close> (the larger \<open>n\<close> on a tie; the magnitude is the exact value of the
  double), padded with zeros to \<open>f + 1\<close> digits, with a point before the last \<open>f\<close> digits.
  From \<open>10\<^sup>2\<^sup>1\<close> on the standard prints the number in exponent notation; the model
  records the sign and the magnitude there (\<open>Exponential\<close>).
\<close>

datatype error = RangeError

datatype fixed_text = Decimal string | Exponential string real

fun digits :: "nat \<Rightarrow> string" where
  "digits n =
     (if n < 10 then [''0123456789'' ! n]
      else digits (n div 10) @ [''0123456789'' ! (n mod 10)])"

declare digits.simps [simp del]

definition toFixed :: "number \<Rightarrow> int \<Rightarrow> error + fixed_text" where
  "toFixed v fractionDigits =
     (if fractionDigits < 0 \<or> 100 < fractionDigits then Inl RangeError
      else Inr
        (case v of
           NaN \<Rightarrow> Decimal ''NaN''
         | PosInf \<Rightarrow> Decimal ''Infinity''
         | NegInf \<Rightarrow> Decimal ''-Infinity''
         | Fin x \<Rightarrow>
             (let f = nat fractionDigits;
                  s = (if x < 0 then ''-'' else []);
                  y = (if x < 0 then - x else x)
              in if 10 ^ 21 \<le> y then Exponential s y
                 else (let n = nat \<lfloor>y * 10 ^ f + 1 / 2\<rfloor>;
                           m = digits n;
                           m = (if f \<noteq> 0 \<and> length m \<le> f
                                then replicate (f + 1 - length m) (CHR ''0'') @ m else m);
                           k = length m
                       in Decimal (s @ (if f \<noteq> 0 then take (k - f) m @ ''.'' @ drop (k - f) m
                                        else m))))))"

section \<open>The allocation engine\<close>

text \<open>
  \<open>calculateMetrics\<close> of \<open>src/app/calculator/page.tsx\<close>. The interface \<open>Metrics\<close> is
  the record of the same name. The function binds ten constants before it builds its
  result; \<open>calculateMetrics_locals\<close> is the same sequence of bindings, returned as a
  record, so that properties of the constants that the result does not carry (the two
  unrounded ratios, the margin, the distributions) can be stated. The result of
  \<open>calculateMetrics\<close> is \<open>Inr\<close> of the record it returns, or \<open>Inl\<close> of the exception
  that one of its two calls of \<open>toFixed\<close> throws.
\<close>

record Locals =
  totalBaseCost :: number
  investorCosts :: number
  contractorCosts :: number
  investorRatio :: number
  contractorRatio :: number
  margin :: number
  investorDistribution :: number
  contractorDistribution :: number
  investorProfit :: number
  contractorProfit :: number

record Metrics =
  investorProfit :: number
  contractorProfit :: number
  investorProfitPercent :: number
  contractorProfitPercent :: number
  totalBaseCost :: number
  investorRatio :: fixed_text
  contractorRatio :: fixed_text

definition calculateMetrics_locals ::
  "number \<Rightarrow> number \<Rightarrow> number \<Rightarrow> number \<Rightarrow> Locals" where
  "calculateMetrics_locals price acquisition labor material =
     (let totalBaseCost = acquisition + labor + material;
          investorCosts = acquisition + material;
          contractorCosts = labor;
          investorRatio = investorCosts / totalBaseCost;
          contractorRatio = contractorCosts / totalBaseCost;
          margin = price - totalBaseCost;
          investorDistribution = investorCosts + investorRatio * margin;
          contractorDistribution = contractorCosts + contractorRatio * margin;
          investorProfit = investorDistribution - investorCosts;
          contractorProfit = contractorDistribution - contractorCosts
      in \<lparr>Locals.totalBaseCost = totalBaseCost,
          Locals.investorCosts = investorCosts,
          Locals.contractorCosts = contractorCosts,
          Locals.investorRatio = investorRatio,
          Locals.contractorRatio = contractorRatio,
          Locals.margin = margin,
          Locals.investorDistribution = investorDistribution,
          Locals.contractorDistribution = contractorDistribution,
          Locals.investorProfit = investorProfit,
          Locals.contractorProfit = contractorProfit\<rparr>)"

definition calculateMetrics ::
  "number \<Rightarrow> number \<Rightarrow> number \<Rightarrow> number \<Rightarrow> error + Metrics" where
  "calculateMetrics price acquisition labor material =
     (let totalBaseCost = acquisition + labor + material;
          investorCosts = acquisition + material;
          contractorCosts = labor;
          investorRatio = investorCosts / totalBaseCost;
          contractorRatio = contractorCosts / totalBaseCost;
          margin = price - totalBaseCost;
          investorDistribution = investorCosts + investorRatio * margin;
          contractorDistribution = contractorCosts + contractorRatio * margin;
          investorProfit = investorDistribution - investorCosts;
          contractorProfit = contractorDistribution - contractorCosts
      in case toFixed (investorRatio * Fin 100) 1 of
           Inl e \<Rightarrow> Inl e
         | Inr investorRatioText \<Rightarrow>
             (case toFixed (contractorRatio * Fin 100) 1 of
                Inl e \<Rightarrow> Inl e
              | Inr contractorRatioText \<Rightarrow>
                  Inr \<lparr>Metrics.investorProfit = investorProfit,
                       Metrics.contractorProfit = contractorProfit,
                       Metrics.investorProfitPercent = (investorProfit / investorCosts) * Fin 100,
                       Metrics.contractorProfitPercent =
                         (contractorProfit / contractorCosts) * Fin 100,
                       Metrics.totalBaseCost = totalBaseCost,
                       Metrics.investorRatio = investorRatioText,
                       Metrics.contractorRatio = contractorRatioText\<rparr>))"

section \<open>The trend series\<close>

text \<open>
  \<open>trendData\<close> of the same file: the body of the \<open>useMemo\<close> callback, as a function of
  the three costs it reads. \<open>Array.from({ length: steps + 1 }, (_, i) => ...)\<close> calls its
  callback on \<open>0, ..., steps\<close> in this order and collects the results; \<open>array_from\<close> does
  the same on a list of indices and stops at the first call that throws.
\<close>

record TrendPoint =
  salePrice :: number
  investorProfit :: number
  contractorProfit :: number
  investorProfitPercent :: number
  contractorProfitPercent :: number
  contractorRevenue :: number

fun array_from :: "(nat \<Rightarrow> error + 'a) \<Rightarrow> nat list \<Rightarrow> error + 'a list" where
  "array_from f [] = Inr []"
| "array_from f (i # is) =
     (case f i of
        Inl e \<Rightarrow> Inl e
      | Inr x \<Rightarrow> (case array_from f is of Inl e \<Rightarrow> Inl e | Inr xs \<Rightarrow> Inr (x # xs)))"

definition trendData :: "number \<Rightarrow> number \<Rightarrow> number \<Rightarrow> error + TrendPoint list" where
  "trendData acquisitionCost laborCost materialCost =
     (let totalCost = acquisitionCost + laborCost + materialCost;
          minPrice = totalCost * Fin 0.5;
          maxPrice = totalCost * Fin 2;
          steps = (20 :: nat);
          stepSize = (maxPrice - minPrice) / Fin (real steps)
      in array_from (\<lambda>i.
            let price = minPrice + Fin (real i) * stepSize
            in case calculateMetrics price acquisitionCost laborCost materialCost of
                 Inl e \<Rightarrow> Inl e
               | Inr m \<Rightarrow>
                   Inr \<lparr>TrendPoint.salePrice = price,
                        TrendPoint.investorProfit = Metrics.investorProfit m,
                        TrendPoint.contractorProfit = Metrics.contractorProfit m,
                        TrendPoint.investorProfitPercent = Metrics.investorProfitPercent m,
                        TrendPoint.contractorProfitPercent = Metrics.contractorProfitPercent m,
                        TrendPoint.contractorRevenue = laborCost + Metrics.contractorProfit m\<rparr>)
          [0 ..< steps + 1])"

section \<open>The direct formulation\<close>


section \<open>Approximation\<close>


section \<open>Properties of rounding\<close>

text \<open>
  The rounding is to nearest: \<open>rhe\<close> is within one half of its argument, the
  exponent found by the search brackets the magnitude, and so \<open>rnd_abs\<close> is within half
  a unit in the last place of its argument, monotone, and the identity on its own range.
\<close>
lemma rhe_lower: "z - 1 / 2 \<le> of_int (rhe z)"
  by (simp add: rhe_def Let_def) linarith

lemma rhe_upper: "of_int (rhe z) \<le> z + 1 / 2"
  by (simp add: rhe_def Let_def) linarith

lemma rhe_of_int [simp]: "rhe (of_int n) = n"
  by (simp add: rhe_def Let_def)

lemma rhe_floor_le: "\<lfloor>z\<rfloor> \<le> rhe z"
  by (simp add: rhe_def Let_def)

lemma rhe_le_floor: "rhe z \<le> \<lfloor>z\<rfloor> + 1"
  by (simp add: rhe_def Let_def)

lemma rhe_ge:
  assumes "of_int n \<le> z"
  shows "n \<le> rhe z"
proof -
  from assms have "n \<le> \<lfloor>z\<rfloor>" by (simp add: le_floor_iff)
  with rhe_floor_le [of z] show ?thesis by linarith
qed

lemma rhe_le:
  assumes "z \<le> of_int n"
  shows "rhe z \<le> n"
proof (cases "z = of_int n")
  case True
  then show ?thesis by simp
next
  case False
  with assms have "z < of_int n" by simp
  then have "\<lfloor>z\<rfloor> < n" by (simp add: floor_less_iff)
  with rhe_le_floor [of z] show ?thesis by linarith
qed

lemma rhe_mono:
  assumes "z1 \<le> z2"
  shows "rhe z1 \<le> rhe z2"
proof (cases "\<lfloor>z1\<rfloor> = \<lfloor>z2\<rfloor>")
  case True
  with assms show ?thesis
    by (auto simp: rhe_def Let_def)
next
  case False
  with assms have "\<lfloor>z1\<rfloor> < \<lfloor>z2\<rfloor>"
    using floor_mono [OF assms] by linarith
  with rhe_le_floor [of z1] rhe_floor_le [of z2] show ?thesis
    by linarith
qed

lemma up_spec:
  "2 powi e \<le> y \<Longrightarrow>
   e \<le> up k e y \<and> up k e y \<le> e + int k \<and> 2 powi (up k e y) \<le> y \<and>
   (y < 2 powi (up k e y + 1) \<or> up k e y = e + int k)"
proof (induction k arbitrary: e)
  case 0
  then show ?case by simp
next
  case (Suc k)
  show ?case
  proof (cases "2 powi (e + 1) \<le> y")
    case True
    from Suc.IH [OF True] True show ?thesis
      by auto
  next
    case False
    with Suc.prems show ?thesis
      by auto
  qed
qed

lemma down_spec:
  "y < 2 powi (e + 1) \<Longrightarrow>
   e - int k \<le> down k e y \<and> down k e y \<le> e \<and> y < 2 powi (down k e y + 1) \<and>
   (2 powi (down k e y) \<le> y \<or> down k e y = e - int k)"
proof (induction k arbitrary: e)
  case 0
  then show ?case by simp
next
  case (Suc k)
  show ?case
  proof (cases "y < 2 powi e")
    case True
    then have "y < 2 powi (e - 1 + 1)" by simp
    from Suc.IH [OF this] True show ?thesis
      by auto
  next
    case False
    with Suc.prems show ?thesis
      by auto
  qed
qed

lemma expo_range: "- 1022 \<le> expo y \<and> expo y \<le> 1023"
proof (cases "1 \<le> y")
  case True
  then have "2 powi 0 \<le> y" by simp
  from up_spec [OF this, of 1023] True show ?thesis
    by (simp add: expo_def)
next
  case False
  then have "y < 2 powi (0 + 1)" by simp
  from down_spec [OF this, of 1022] False show ?thesis
    by (simp add: expo_def)
qed

lemma expo_lower: "2 powi (expo y) \<le> y \<or> expo y = - 1022"
proof (cases "1 \<le> y")
  case True
  then have "2 powi 0 \<le> y" by simp
  from up_spec [OF this, of 1023] True show ?thesis
    by (simp add: expo_def)
next
  case False
  then have "y < 2 powi (0 + 1)" by simp
  from down_spec [OF this, of 1022] False show ?thesis
    by (simp add: expo_def)
qed

lemma expo_upper: "y < 2 powi (expo y + 1) \<or> expo y = 1023"
proof (cases "1 \<le> y")
  case True
  then have "2 powi 0 \<le> y" by simp
  from up_spec [OF this, of 1023] True show ?thesis
    by (simp add: expo_def)
next
  case False
  then have "y < 2 powi (0 + 1)" by simp
  from down_spec [OF this, of 1022] False show ?thesis
    by (simp add: expo_def)
qed

lemma pow2_mono: "a \<le> b \<Longrightarrow> (2::real) powi a \<le> 2 powi b"
  by (rule power_int_increasing) simp_all

lemma expo_eqI:
  assumes "- 1022 \<le> e" "e \<le> 1023"
    and lo: "2 powi e \<le> y \<or> e = - 1022"
    and hi: "y < 2 powi (e + 1) \<or> e = 1023"
  shows "expo y = e"
proof (rule ccontr)
  assume ne: "expo y \<noteq> e"
  show False
  proof (cases "expo y < e")
    case True
    with expo_range [of y] have "e \<noteq> - 1022" "expo y \<noteq> 1023" using assms by auto
    with lo expo_upper [of y] have "2 powi e \<le> y" "y < 2 powi (expo y + 1)" by auto
    moreover from True have "(2::real) powi (expo y + 1) \<le> 2 powi e"
      by (intro pow2_mono) simp
    ultimately show False by linarith
  next
    case False
    with ne have gt: "e < expo y" by simp
    with expo_range [of y] have "expo y \<noteq> - 1022" "e \<noteq> 1023" using assms by auto
    with hi expo_lower [of y] have "y < 2 powi (e + 1)" "2 powi (expo y) \<le> y" by auto
    moreover from gt have "(2::real) powi (e + 1) \<le> 2 powi (expo y)"
      by (intro pow2_mono) simp
    ultimately show False by linarith
  qed
qed

lemma expo_mono:
  assumes "y1 \<le> y2"
  shows "expo y1 \<le> expo y2"
proof (rule ccontr)
  assume "\<not> expo y1 \<le> expo y2"
  then have gt: "expo y2 < expo y1" by simp
  with expo_range [of y1] expo_range [of y2]
  have "expo y1 \<noteq> - 1022" "expo y2 \<noteq> 1023" by auto
  with expo_lower [of y1] expo_upper [of y2]
  have "2 powi (expo y1) \<le> y1" "y2 < 2 powi (expo y2 + 1)" by auto
  moreover from gt have "(2::real) powi (expo y2 + 1) \<le> 2 powi (expo y1)"
    by (intro pow2_mono) simp
  ultimately show False using assms by linarith
qed

lemma ulp_pos [simp]: "0 < (2::real) powi j"
  by simp

lemma pow2_split: "(2::real) powi k = 2 powi (k - j) * 2 powi j"
  using power_int_add [of "2::real" "k - j" j] by simp

lemma pow2_of_int: "0 \<le> j \<Longrightarrow> (2::real) powi j = of_int (2 ^ nat j)"
  by (simp add: power_int_nonneg_exp)

lemma rnd_abs_eq: "rnd_abs y = of_int (rhe (y / 2 powi (expo y - 52))) * 2 powi (expo y - 52)"
  by (simp add: rnd_abs_def)

lemma rnd_abs_nonneg:
  assumes "0 \<le> y"
  shows "0 \<le> rnd_abs y"
proof -
  have "of_int 0 \<le> y / 2 powi (expo y - 52)"
    using assms by simp
  then have "0 \<le> rhe (y / 2 powi (expo y - 52))"
    by (rule rhe_ge)
  then show ?thesis
    by (simp add: rnd_abs_def)
qed

lemma rnd_abs_err: "\<bar>rnd_abs y - y\<bar> \<le> 2 powi (expo y - 52) / 2"
proof -
  define q :: real where "q = 2 powi (expo y - 52)"
  define z where "z = y / q"
  have q: "0 < q" by (simp add: q_def)
  then have y: "y = z * q" by (simp add: z_def)
  have "rnd_abs y - y = (of_int (rhe z) - z) * q"
    unfolding rnd_abs_def q_def [symmetric] z_def [symmetric] using y
    by (simp add: algebra_simps)
  moreover have "\<bar>of_int (rhe z) - z\<bar> \<le> 1 / 2"
    using rhe_lower [of z] rhe_upper [of z] by linarith
  ultimately have "\<bar>rnd_abs y - y\<bar> \<le> 1 / 2 * q"
    using q by (simp add: abs_mult mult_right_mono)
  then show ?thesis by (simp add: q_def)
qed

lemma rnd_abs_le_grid:
  assumes "y \<le> of_int N * 2 powi (expo y - 52)"
  shows "rnd_abs y \<le> of_int N * 2 powi (expo y - 52)"
proof -
  from assms have "y / 2 powi (expo y - 52) \<le> of_int N"
    by (simp add: pos_divide_le_eq)
  then have "rhe (y / 2 powi (expo y - 52)) \<le> N"
    by (rule rhe_le)
  then show ?thesis
    by (simp add: rnd_abs_def)
qed

lemma rnd_abs_ge_grid:
  assumes "of_int N * 2 powi (expo y - 52) \<le> y"
  shows "of_int N * 2 powi (expo y - 52) \<le> rnd_abs y"
proof -
  from assms have "of_int N \<le> y / 2 powi (expo y - 52)"
    by (simp add: pos_le_divide_eq)
  then have "N \<le> rhe (y / 2 powi (expo y - 52))"
    by (rule rhe_ge)
  then show ?thesis
    by (simp add: rnd_abs_def)
qed

lemma pow2_grid:
  assumes "expo y - 52 \<le> k"
  shows "(2::real) powi k = of_int (2 ^ nat (k - (expo y - 52))) * 2 powi (expo y - 52)"
proof -
  have "(2::real) powi k = 2 powi (k - (expo y - 52)) * 2 powi (expo y - 52)"
    by (rule pow2_split)
  also have "(2::real) powi (k - (expo y - 52)) = of_int (2 ^ nat (k - (expo y - 52)))"
    using assms by (intro pow2_of_int) simp
  finally show ?thesis .
qed

lemma rnd_abs_le_pow2:
  assumes "y \<le> 2 powi k" "expo y - 52 \<le> k"
  shows "rnd_abs y \<le> 2 powi k"
  using rnd_abs_le_grid [of y "2 ^ nat (k - (expo y - 52))"] assms
  by (simp only: pow2_grid [OF assms(2), symmetric])

lemma rnd_abs_ge_pow2:
  assumes "2 powi k \<le> y" "expo y - 52 \<le> k"
  shows "2 powi k \<le> rnd_abs y"
  using rnd_abs_ge_grid [of "2 ^ nat (k - (expo y - 52))" y] assms
  by (simp only: pow2_grid [OF assms(2), symmetric])

lemma rnd_abs_mono:
  assumes "y1 \<le> y2"
  shows "rnd_abs y1 \<le> rnd_abs y2"
proof (cases "expo y1 = expo y2")
  case True
  from assms have "y1 / 2 powi (expo y2 - 52) \<le> y2 / 2 powi (expo y2 - 52)"
    by (simp add: divide_right_mono)
  then have "rhe (y1 / 2 powi (expo y2 - 52)) \<le> rhe (y2 / 2 powi (expo y2 - 52))"
    by (rule rhe_mono)
  then show ?thesis
    by (simp add: rnd_abs_def True)
next
  case False
  with expo_mono [OF assms] have lt: "expo y1 < expo y2" by simp
  with expo_range [of y1] expo_range [of y2]
  have "expo y1 \<noteq> 1023" "expo y2 \<noteq> - 1022" by auto
  with expo_upper [of y1] expo_lower [of y2]
  have h1: "y1 \<le> 2 powi (expo y1 + 1)" and h2: "2 powi (expo y2) \<le> y2" by auto
  have "rnd_abs y1 \<le> 2 powi (expo y1 + 1)"
    by (rule rnd_abs_le_pow2 [OF h1]) simp
  also have "(2::real) powi (expo y1 + 1) \<le> 2 powi (expo y2)"
    using lt by (intro pow2_mono) simp
  also have "2 powi (expo y2) \<le> rnd_abs y2"
    by (rule rnd_abs_ge_pow2 [OF h2]) simp
  finally show ?thesis .
qed

lemma rhe_div_grid: "rhe (of_int n * q / q) = n" if "q \<noteq> 0" for q :: real
  using that by simp

lemma rnd_abs_on_grid:
  assumes "expo (of_int n * 2 powi j) - 52 = j"
  shows "rnd_abs (of_int n * 2 powi j) = of_int n * 2 powi j"
  by (simp add: rnd_abs_def assms)

lemma rnd_abs_idem:
  assumes "0 \<le> y" "rnd_abs y < 2 ^ 1024"
  shows "rnd_abs (rnd_abs y) = rnd_abs y"
proof -
  define e where "e = expo y"
  define n where "n = rhe (y / 2 powi (e - 52))"
  have v: "rnd_abs y = of_int n * 2 powi (e - 52)"
    by (simp add: rnd_abs_def n_def e_def)
  have er: "- 1022 \<le> e" "e \<le> 1023"
    using expo_range [of y] by (simp_all add: e_def)
  have n0: "0 \<le> n"
  proof -
    have "of_int 0 \<le> y / 2 powi (e - 52)"
      using assms(1) by simp
    then show ?thesis
      unfolding n_def by (rule rhe_ge)
  qed
  have p52: "(2::real) powi e = of_int (2 ^ 52) * 2 powi (e - 52)"
    using pow2_split [of e "e - 52"] by simp
  have p53: "(2::real) powi (e + 1) = of_int (2 ^ 53) * 2 powi (e - 52)"
    using pow2_split [of "e + 1" "e - 52"] by simp
  have p1024: "(2::real) ^ 1024 = 2 powi 1024"
    by simp
  consider (sub) "n < 2 ^ 52" | (norm) "2 ^ 52 \<le> n" "n < 2 ^ 53" | (top) "2 ^ 53 \<le> n"
    by linarith
  then show ?thesis
  proof cases
    case sub
    have lt: "rnd_abs y < 2 powi e"
      unfolding v p52 using sub by (simp del: of_int_numeral of_int_power)
    have "e = - 1022"
    proof (rule ccontr)
      assume "e \<noteq> - 1022"
      with expo_lower [of y] have "2 powi e \<le> y" by (simp add: e_def)
      then have "2 powi e \<le> rnd_abs y"
        by (rule rnd_abs_ge_pow2) (simp add: e_def)
      with lt show False by simp
    qed
    have "expo (rnd_abs y) = e"
    proof (rule expo_eqI)
      show "- 1022 \<le> e" "e \<le> 1023" by fact+
      show "2 powi e \<le> rnd_abs y \<or> e = - 1022" using \<open>e = - 1022\<close> by simp
      show "rnd_abs y < 2 powi (e + 1) \<or> e = 1023"
        using lt pow2_mono [of e "e + 1"] by (auto intro: less_le_trans)
    qed
    then have "expo (of_int n * 2 powi (e - 52)) - 52 = e - 52"
      by (simp add: v)
    from rnd_abs_on_grid [OF this] show ?thesis
      by (simp add: v)
  next
    case norm
    have "expo (rnd_abs y) = e"
    proof (rule expo_eqI)
      show "- 1022 \<le> e" "e \<le> 1023" by fact+
      have "2 powi e \<le> rnd_abs y"
        unfolding v p52 using norm(1) by (simp del: of_int_numeral of_int_power)
      then show "2 powi e \<le> rnd_abs y \<or> e = - 1022" ..
      have "rnd_abs y < 2 powi (e + 1)"
        unfolding v p53 using norm(2) by (simp del: of_int_numeral of_int_power)
      then show "rnd_abs y < 2 powi (e + 1) \<or> e = 1023" ..
    qed
    then have "expo (of_int n * 2 powi (e - 52)) - 52 = e - 52"
      by (simp add: v)
    from rnd_abs_on_grid [OF this] show ?thesis
      by (simp add: v)
  next
    case top
    have ge: "2 powi (e + 1) \<le> rnd_abs y"
      unfolding v p53 using top by (simp del: of_int_numeral of_int_power)
    have "e \<noteq> 1023"
    proof
      assume "e = 1023"
      with ge have "2 powi 1024 \<le> rnd_abs y" by simp
      with assms(2) show False by (simp only: p1024)
    qed
    with expo_upper [of y] have "y \<le> 2 powi (e + 1)" by (auto simp: e_def)
    then have "rnd_abs y \<le> 2 powi (e + 1)"
      by (rule rnd_abs_le_pow2) (simp add: e_def)
    with ge have eq: "rnd_abs y = 2 powi (e + 1)" by simp
    have ex: "expo (2 powi (e + 1)) = e + 1"
    proof (rule expo_eqI)
      show "- 1022 \<le> e + 1" "e + 1 \<le> 1023" using er \<open>e \<noteq> 1023\<close> by simp_all
      show "(2::real) powi (e + 1) \<le> 2 powi (e + 1) \<or> e + 1 = - 1022" by simp
      have "(2::real) powi (e + 1) < 2 powi (e + 1 + 1)"
        by (rule power_int_strict_increasing) simp_all
      then show "(2::real) powi (e + 1) < 2 powi (e + 1 + 1) \<or> e + 1 = 1023" ..
    qed
    have g: "(2::real) powi (e + 1) = of_int (2 ^ 52) * 2 powi (e + 1 - 52)"
      using pow2_split [of "e + 1" "e + 1 - 52"] by simp
    have "expo (of_int (2 ^ 52) * 2 powi (e + 1 - 52)) - 52 = e + 1 - 52"
      using ex by (simp only: g [symmetric])
    from rnd_abs_on_grid [OF this] show ?thesis
      by (simp only: eq g [symmetric])
  qed
qed

lemma rhe_0 [simp]: "rhe 0 = 0"
  by (simp add: rhe_def)

lemma rnd_abs_0 [simp]: "rnd_abs 0 = 0"
  by (simp add: rnd_abs_def)

lemma rnd_0 [simp]: "rnd 0 = Fin 0"
  by (simp add: rnd_def)

lemma rnd_nonneg_cases:
  assumes "0 \<le> x"
  shows "rnd x = (if 2 ^ 1024 \<le> rnd_abs x then PosInf else Fin (rnd_abs x))"
  using assms unfolding rnd_def by simp

lemma rnd_neg_cases:
  assumes "x < 0"
  shows "rnd x = (if 2 ^ 1024 \<le> rnd_abs (- x) then NegInf else Fin (- rnd_abs (- x)))"
  using assms unfolding rnd_def by simp

lemma rnd_not_NaN [simp]: "rnd x \<noteq> NaN"
  by (simp add: rnd_def)

lemma rnd_idem:
  assumes "rnd x = Fin v"
  shows "rnd v = Fin v"
proof (cases "x < 0")
  case True
  from assms True have w: "rnd_abs (- x) < 2 ^ 1024" and v: "v = - rnd_abs (- x)"
    by (auto simp: rnd_neg_cases split: if_splits)
  from True have nx: "0 \<le> - x" by simp
  then have nn: "0 \<le> rnd_abs (- x)"
    by (rule rnd_abs_nonneg)
  have id: "rnd_abs (rnd_abs (- x)) = rnd_abs (- x)"
    by (rule rnd_abs_idem [OF nx w])
  show ?thesis
  proof (cases "v < 0")
    case True
    then show ?thesis
      using w id by (simp add: rnd_neg_cases v)
  next
    case False
    with nn have "v = 0" by (simp add: v)
    then show ?thesis by simp
  qed
next
  case False
  then have x: "0 \<le> x" by simp
  from assms x have w: "rnd_abs x < 2 ^ 1024" and v: "v = rnd_abs x"
    by (auto simp: rnd_nonneg_cases split: if_splits)
  from x have nn: "0 \<le> v"
    unfolding v by (rule rnd_abs_nonneg)
  have "rnd_abs v = v"
    unfolding v by (rule rnd_abs_idem [OF x w])
  with w nn show ?thesis
    by (simp add: rnd_nonneg_cases v)
qed

lemma rnd_mono:
  assumes "x \<le> y"
  shows "rnd x \<le> rnd y"
proof -
  consider (pp) "0 \<le> x" "0 \<le> y" | (nn) "x < 0" "y < 0" | (np) "x < 0" "0 \<le> y"
    using assms by linarith
  then show ?thesis
  proof cases
    case pp
    from rnd_abs_mono [OF assms] show ?thesis
      by (simp add: rnd_nonneg_cases pp)
  next
    case nn
    from assms have "- y \<le> - x" by simp
    from rnd_abs_mono [OF this] show ?thesis
      by (simp add: rnd_neg_cases nn)
  next
    case np
    from np have "0 \<le> rnd_abs (- x)" "0 \<le> rnd_abs y"
      by (simp_all add: rnd_abs_nonneg)
    then show ?thesis
      by (simp add: rnd_neg_cases rnd_nonneg_cases np)
  qed
qed

lemma expo_le:
  assumes "y \<le> 2 powi k" "- 1022 \<le> k"
  shows "expo y \<le> k"
proof (rule ccontr)
  assume "\<not> expo y \<le> k"
  then have gt: "k < expo y" by simp
  with assms(2) have "expo y \<noteq> - 1022" by simp
  with expo_lower [of y] have "2 powi (expo y) \<le> y" by simp
  moreover have "(2::real) powi k < 2 powi (expo y)"
    using gt by (intro power_int_strict_increasing) simp_all
  ultimately show False using assms(1) by linarith
qed

lemma rnd_abs_close:
  assumes y: "0 \<le> y" "y \<le> 2 powi k" and k: "- 1021 \<le> k"
  shows "rnd_abs y \<le> 2 powi k \<and> \<bar>rnd_abs y - y\<bar> \<le> 2 powi (k - 54)"
proof -
  have e: "expo y \<le> k"
    using y(2) k by (intro expo_le) simp_all
  have le: "rnd_abs y \<le> 2 powi k"
    using y(2) e by (intro rnd_abs_le_pow2) simp_all
  have "\<bar>rnd_abs y - y\<bar> \<le> 2 powi (k - 54)"
  proof (cases "expo y = k")
    case True
    with k have "expo y \<noteq> - 1022" by simp
    with expo_lower [of y] True have "2 powi k \<le> y" by simp
    with y(2) have yk: "y = 2 powi k" by simp
    have "2 powi k \<le> rnd_abs y"
      using yk e by (intro rnd_abs_ge_pow2) simp_all
    with le yk show ?thesis by simp
  next
    case False
    with e have "expo y - 52 \<le> k - 53" by simp
    then have "(2::real) powi (expo y - 52) \<le> 2 powi (k - 53)"
      by (rule pow2_mono)
    moreover have "(2::real) powi (k - 53) = 2 * 2 powi (k - 54)"
      using power_int_add [of "2::real" 1 "k - 54"] by simp
    ultimately have "2 powi (expo y - 52) / 2 \<le> (2::real) powi (k - 54)"
      by simp
    with rnd_abs_err [of y] show ?thesis by linarith
  qed
  with le show ?thesis ..
qed

lemma rnd_close:
  assumes x: "\<bar>x\<bar> \<le> 2 powi k" and k: "- 1021 \<le> k" "k \<le> 1023"
  shows "\<exists>v. rnd x = Fin v \<and> \<bar>v\<bar> \<le> 2 powi k \<and> \<bar>v - x\<bar> \<le> 2 powi (k - 54)"
proof -
  have "(2::real) powi k < 2 powi 1024"
    using k by (intro power_int_strict_increasing) simp_all
  then have lt: "(2::real) powi k < 2 ^ 1024"
    by simp
  show ?thesis
  proof (cases "x < 0")
    case True
    with x have y: "0 \<le> - x" "- x \<le> 2 powi k" by simp_all
    from rnd_abs_close [OF y k(1)] rnd_abs_nonneg [OF y(1)] lt True show ?thesis
      by (simp add: rnd_neg_cases) linarith
  next
    case False
    with x have y: "0 \<le> x" "x \<le> 2 powi k" by simp_all
    from rnd_abs_close [OF y k(1)] rnd_abs_nonneg [OF y(1)] lt False show ?thesis
      by (simp add: rnd_nonneg_cases)
  qed
qed

lemma up_numeral [simp]:
  "up (numeral k) e y = (if 2 powi (e + 1) \<le> y then up (pred_numeral k) (e + 1) y else e)"
  by (simp add: numeral_eq_Suc)

lemma down_numeral [simp]:
  "down (numeral k) e y = (if y < 2 powi e then down (pred_numeral k) (e - 1) y else e)"
  by (simp add: numeral_eq_Suc)

lemma rnd_overflow_pos:
  assumes "2 ^ 1024 \<le> x"
  shows "rnd x = PosInf"
proof -
  have x0: "0 \<le> x"
    using assms by (rule order_trans [rotated]) simp
  have "2 powi 1024 \<le> x" using assms by simp
  then have "2 powi 1024 \<le> rnd_abs x"
    using expo_range [of x] by (intro rnd_abs_ge_pow2) simp_all
  then have "2 ^ 1024 \<le> rnd_abs x" by simp
  with x0 show ?thesis
    by (simp only: rnd_nonneg_cases if_True)
qed

lemma rnd_overflow_neg:
  assumes "x \<le> - (2 ^ 1024)"
  shows "rnd x = NegInf"
proof -
  have x0: "x < 0"
    using assms by (rule le_less_trans) simp
  have "2 powi 1024 \<le> - x" using assms by simp
  then have "2 powi 1024 \<le> rnd_abs (- x)"
    using expo_range [of "- x"] by (intro rnd_abs_ge_pow2) simp_all
  then have "2 ^ 1024 \<le> rnd_abs (- x)" by simp
  with x0 show ?thesis
    by (simp only: rnd_neg_cases if_True)
qed

lemma rnd_pow2:
  assumes "- 1021 \<le> k" "k \<le> 1023"
  shows "rnd (2 powi k) = Fin (2 powi k)"
proof -
  from rnd_close [of "2 powi k" k] assms obtain v
    where v: "rnd (2 powi k) = Fin v" by auto
  have "rnd_abs (2 powi k) \<le> 2 powi k"
    using rnd_abs_close [of "2 powi k" k] assms by simp
  moreover have "2 powi k \<le> rnd_abs (2 powi k)"
    using expo_le [of "2 powi k" k] assms by (intro rnd_abs_ge_pow2) simp_all
  ultimately have "rnd_abs (2 powi k) = 2 powi k" by simp
  with v show ?thesis
    by (simp add: rnd_nonneg_cases split: if_splits)
qed

lemma rhe_eqI:
  assumes "of_int n \<le> z" "z < of_int n + 1 / 2"
  shows "rhe z = n"
proof -
  have "\<lfloor>z\<rfloor> = n"
    using assms by (intro floor_unique) simp_all
  with assms show ?thesis
    by (simp add: rhe_def Let_def)
qed

lemma rnd_abs_evalI:
  assumes "expo y = e" "of_int n \<le> y / 2 powi (e - 52)" "y / 2 powi (e - 52) < of_int n + 1 / 2"
  shows "rnd_abs y = of_int n * 2 powi (e - 52)"
  using rhe_eqI [OF assms(2,3)] by (simp add: rnd_abs_def assms(1))

lemma rnd_code:
  "rnd x = (if x = 0 then Fin 0
            else if x < 0
            then (if 2 ^ 1024 \<le> rnd_abs (- x) then NegInf else Fin (- rnd_abs (- x)))
            else (if 2 ^ 1024 \<le> rnd_abs x then PosInf else Fin (rnd_abs x)))"
  by (simp add: rnd_def)

lemma toFixed_1: "\<exists>s. toFixed v 1 = Inr s"
  by (simp add: toFixed_def)

lemma calculateMetrics_Inr:
  "\<exists>s1 s2. calculateMetrics price acquisition labor material =
     Inr \<lparr>Metrics.investorProfit =
            Locals.investorProfit (calculateMetrics_locals price acquisition labor material),
          Metrics.contractorProfit =
            Locals.contractorProfit (calculateMetrics_locals price acquisition labor material),
          Metrics.investorProfitPercent =
            Locals.investorProfit (calculateMetrics_locals price acquisition labor material) /
            Locals.investorCosts (calculateMetrics_locals price acquisition labor material) * Fin 100,
          Metrics.contractorProfitPercent =
            Locals.contractorProfit (calculateMetrics_locals price acquisition labor material) /
            Locals.contractorCosts (calculateMetrics_locals price acquisition labor material) * Fin 100,
          Metrics.totalBaseCost =
            Locals.totalBaseCost (calculateMetrics_locals price acquisition labor material),
          Metrics.investorRatio = s1,
          Metrics.contractorRatio = s2\<rparr>"
  by (simp add: calculateMetrics_def calculateMetrics_locals_def Let_def toFixed_def)

section \<open>Propagation of rounding errors\<close>













section \<open>Runs of the program\<close>




lemma calculateMetrics_189:
  "calculateMetrics (Fin 189) (Fin 30) (Fin 60) (Fin 60) =
     Inr \<lparr>Metrics.investorProfit = Fin (823314306878669 / 35184372088832),
      Metrics.contractorProfit = Fin (548876204585779 / 35184372088832),
      Metrics.investorProfitPercent = Fin (3659174697238529 / 140737488355328),
      Metrics.contractorProfitPercent = Fin (7318349394477053 / 281474976710656),
      Metrics.totalBaseCost = Fin 150,
      Metrics.investorRatio = Decimal ''60.0'',
      Metrics.contractorRatio = Decimal ''40.0''\<rparr>"
  by (simp add: calculateMetrics_def Let_def rnd_code rnd_abs_def expo_def rhe_def toFixed_def digits.simps)

lemma calculateMetrics_200:
  "calculateMetrics (Fin 200) (Fin 80) (Fin 40) (Fin 40) =
     Inr \<lparr>Metrics.investorProfit = Fin 30,
      Metrics.contractorProfit = Fin 10,
      Metrics.investorProfitPercent = Fin 25,
      Metrics.contractorProfitPercent = Fin 25,
      Metrics.totalBaseCost = Fin 160,
      Metrics.investorRatio = Decimal ''75.0'',
      Metrics.contractorRatio = Decimal ''25.0''\<rparr>"
  by (simp add: calculateMetrics_def Let_def rnd_code rnd_abs_def expo_def rhe_def toFixed_def digits.simps)

lemma locals_200:
  "calculateMetrics_locals (Fin 200) (Fin 80) (Fin 40) (Fin 40) =
     \<lparr>Locals.totalBaseCost = Fin 160,
      Locals.investorCosts = Fin 120,
      Locals.contractorCosts = Fin 40,
      Locals.investorRatio = Fin (3 / 4),
      Locals.contractorRatio = Fin (1 / 4),
      Locals.margin = Fin 40,
      Locals.investorDistribution = Fin 150,
      Locals.contractorDistribution = Fin 50,
      Locals.investorProfit = Fin 30,
      Locals.contractorProfit = Fin 10\<rparr>"
  by (simp add: calculateMetrics_locals_def Let_def rnd_code rnd_abs_def expo_def rhe_def)

lemma calculateMetrics_120:
  "calculateMetrics (Fin 120) (Fin 80) (Fin 40) (Fin 40) =
     Inr \<lparr>Metrics.investorProfit = Fin (- 30),
      Metrics.contractorProfit = Fin (- 10),
      Metrics.investorProfitPercent = Fin (- 25),
      Metrics.contractorProfitPercent = Fin (- 25),
      Metrics.totalBaseCost = Fin 160,
      Metrics.investorRatio = Decimal ''75.0'',
      Metrics.contractorRatio = Decimal ''25.0''\<rparr>"
  by (simp add: calculateMetrics_def Let_def rnd_code rnd_abs_def expo_def rhe_def toFixed_def digits.simps)

lemma locals_120:
  "calculateMetrics_locals (Fin 120) (Fin 80) (Fin 40) (Fin 40) =
     \<lparr>Locals.totalBaseCost = Fin 160,
      Locals.investorCosts = Fin 120,
      Locals.contractorCosts = Fin 40,
      Locals.investorRatio = Fin (3 / 4),
      Locals.contractorRatio = Fin (1 / 4),
      Locals.margin = Fin (- 40),
      Locals.investorDistribution = Fin 90,
      Locals.contractorDistribution = Fin 30,
      Locals.investorProfit = Fin (- 30),
      Locals.contractorProfit = Fin (- 10)\<rparr>"
  by (simp add: calculateMetrics_locals_def Let_def rnd_code rnd_abs_def expo_def rhe_def)

lemma calculateMetrics_160:
  "calculateMetrics (Fin 160) (Fin 80) (Fin 40) (Fin 40) =
     Inr \<lparr>Metrics.investorProfit = Fin 0,
      Metrics.contractorProfit = Fin 0,
      Metrics.investorProfitPercent = Fin 0,
      Metrics.contractorProfitPercent = Fin 0,
      Metrics.totalBaseCost = Fin 160,
      Metrics.investorRatio = Decimal ''75.0'',
      Metrics.contractorRatio = Decimal ''25.0''\<rparr>"
  by (simp add: calculateMetrics_def Let_def rnd_code rnd_abs_def expo_def rhe_def toFixed_def digits.simps)


lemma calculateMetrics_57:
  "calculateMetrics (Fin 57) (Fin 10) (Fin 20) (Fin 20) =
     Inr \<lparr>Metrics.investorProfit = Fin (295548725546189 / 70368744177664),
      Metrics.contractorProfit = Fin (788129934789837 / 281474976710656),
      Metrics.investorProfitPercent = Fin (7881299347898373 / 562949953421312),
      Metrics.contractorProfitPercent = Fin (3940649673949185 / 281474976710656),
      Metrics.totalBaseCost = Fin 50,
      Metrics.investorRatio = Decimal ''60.0'',
      Metrics.contractorRatio = Decimal ''40.0''\<rparr>"
  by (simp add: calculateMetrics_def Let_def rnd_code rnd_abs_def expo_def rhe_def toFixed_def digits.simps)

lemma calculateMetrics_57_next:
  "calculateMetrics (Fin (8022036836253697 / 140737488355328)) (Fin 10) (Fin 20) (Fin 20) =
     Inr \<lparr>Metrics.investorProfit = Fin (295548725546189 / 70368744177664),
      Metrics.contractorProfit = Fin (394064967394919 / 140737488355328),
      Metrics.investorProfitPercent = Fin (7881299347898373 / 562949953421312),
      Metrics.contractorProfitPercent = Fin (1970324836974595 / 140737488355328),
      Metrics.totalBaseCost = Fin 50,
      Metrics.investorRatio = Decimal ''60.0'',
      Metrics.contractorRatio = Decimal ''40.0''\<rparr>"
  by (simp add: calculateMetrics_def Let_def rnd_code rnd_abs_def expo_def rhe_def toFixed_def digits.simps)

lemma locals_57:
  "calculateMetrics_locals (Fin 57) (Fin 10) (Fin 20) (Fin 20) =
     \<lparr>Locals.totalBaseCost = Fin 50,
      Locals.investorCosts = Fin 30,
      Locals.contractorCosts = Fin 20,
      Locals.investorRatio = Fin (5404319552844595 / 9007199254740992),
      Locals.contractorRatio = Fin (3602879701896397 / 9007199254740992),
      Locals.margin = Fin 7,
      Locals.investorDistribution = Fin (2406611050876109 / 70368744177664),
      Locals.contractorDistribution = Fin (6417629469002957 / 281474976710656),
      Locals.investorProfit = Fin (295548725546189 / 70368744177664),
      Locals.contractorProfit = Fin (788129934789837 / 281474976710656)\<rparr>"
  by (simp add: calculateMetrics_locals_def Let_def rnd_code rnd_abs_def expo_def rhe_def)










section \<open>The claims\<close>










text \<open>
  Claim C7: \<open>calculateMetrics(200, 80, 40, 40)\<close> returns a record with
  \<open>totalBaseCost = 160\<close>, \<open>investorProfit = 30\<close> and \<open>contractorProfit = 10\<close>, having
  bound \<open>totalBaseCost = 160\<close>, \<open>investorCosts = 120\<close>, \<open>contractorCosts = 40\<close>,
  \<open>margin = 40\<close>, \<open>investorRatio = 0.75\<close> and \<open>contractorRatio = 0.25\<close>; and
  \<open>calculateMetrics(120, 80, 40, 40)\<close> returns a record with \<open>investorProfit = -30\<close> and
  \<open>contractorProfit = -10\<close>, having bound \<open>margin = -40\<close>. Every intermediate result of
  the two calls is a double, so no operation rounds.
\<close>

theorem concrete_scenarios:
  "(\<exists>M. calculateMetrics (Fin 200) (Fin 80) (Fin 40) (Fin 40) = Inr M \<and>
        Metrics.totalBaseCost M = Fin 160 \<and>
        Metrics.investorProfit M = Fin 30 \<and>
        Metrics.contractorProfit M = Fin 10) \<and>
   Locals.totalBaseCost (calculateMetrics_locals (Fin 200) (Fin 80) (Fin 40) (Fin 40)) = Fin 160 \<and>
   Locals.investorCosts (calculateMetrics_locals (Fin 200) (Fin 80) (Fin 40) (Fin 40)) = Fin 120 \<and>
   Locals.contractorCosts (calculateMetrics_locals (Fin 200) (Fin 80) (Fin 40) (Fin 40)) = Fin 40 \<and>
   Locals.margin (calculateMetrics_locals (Fin 200) (Fin 80) (Fin 40) (Fin 40)) = Fin 40 \<and>
   Locals.investorRatio (calculateMetrics_locals (Fin 200) (Fin 80) (Fin 40) (Fin 40)) = Fin 0.75 \<and>
   Locals.contractorRatio (calculateMetrics_locals (Fin 200) (Fin 80) (Fin 40) (Fin 40)) = Fin 0.25 \<and>
   (\<exists>M. calculateMetrics (Fin 120) (Fin 80) (Fin 40) (Fin 40) = Inr M \<and>
        Metrics.investorProfit M = Fin (- 30) \<and>
        Metrics.contractorProfit M = Fin (- 10)) \<and>
   Locals.margin (calculateMetrics_locals (Fin 120) (Fin 80) (Fin 40) (Fin 40)) = Fin (- 40)"
  by (simp add: calculateMetrics_200 calculateMetrics_120 locals_200 locals_120)




end
